theory Spec2Isabelle
  imports Complex_Main "HOL-Library.Multiset"
begin

section \<open>Values of the Python programs\<close>

text \<open>
  The two estimators (\<^verbatim>\<open>kbest.py\<close>, \<^verbatim>\<open>nlateration.py\<close>) compute on 64-bit integers
  and on IEEE 754 doubles. An integer array wraps around modulo \<open>2^64\<close>. A double is a
  real number or one of the three special values; an operation whose exact result is
  too large for a double gives an infinity, as the hardware does (NumPy only warns).
  What is not modelled is the rounding of a finite result to 53 bits: a finite result
  is the exact real number.
\<close>

definition wrap64 :: "int \<Rightarrow> int" where
  "wrap64 v = (v + 2 ^ 63) mod 2 ^ 64 - 2 ^ 63"

datatype npfloat = Fin real | PInf | NInf | NaN

text \<open>
  Exact results from \<open>2^1024 - 2^970\<close> on round to infinity; the largest double is
  \<open>2^1024 - 2^971\<close>.
\<close>

definition overflow_threshold :: real where
  "overflow_threshold = 2 ^ 1024 - 2 ^ 970"

definition fl :: "real \<Rightarrow> npfloat" where
  "fl r =
     (if overflow_threshold \<le> r then PInf
      else if r \<le> - overflow_threshold then NInf
      else Fin r)"

fun np_add :: "npfloat \<Rightarrow> npfloat \<Rightarrow> npfloat" where
  "np_add NaN _ = NaN"
| "np_add _ NaN = NaN"
| "np_add (Fin a) (Fin b) = fl (a + b)"
| "np_add PInf NInf = NaN"
| "np_add NInf PInf = NaN"
| "np_add PInf _ = PInf"
| "np_add _ PInf = PInf"
| "np_add NInf _ = NInf"
| "np_add _ NInf = NInf"

fun np_neg :: "npfloat \<Rightarrow> npfloat" where
  "np_neg (Fin a) = Fin (- a)"
| "np_neg PInf = NInf"
| "np_neg NInf = PInf"
| "np_neg NaN = NaN"

definition np_sub :: "npfloat \<Rightarrow> npfloat \<Rightarrow> npfloat" where
  "np_sub a b = np_add a (np_neg b)"

fun np_mul :: "npfloat \<Rightarrow> npfloat \<Rightarrow> npfloat" where
  "np_mul NaN _ = NaN"
| "np_mul _ NaN = NaN"
| "np_mul (Fin a) (Fin b) = fl (a * b)"
| "np_mul (Fin a) PInf = (if a = 0 then NaN else if 0 < a then PInf else NInf)"
| "np_mul (Fin a) NInf = (if a = 0 then NaN else if 0 < a then NInf else PInf)"
| "np_mul PInf (Fin b) = (if b = 0 then NaN else if 0 < b then PInf else NInf)"
| "np_mul NInf (Fin b) = (if b = 0 then NaN else if 0 < b then NInf else PInf)"
| "np_mul PInf PInf = PInf"
| "np_mul NInf NInf = PInf"
| "np_mul PInf NInf = NInf"
| "np_mul NInf PInf = NInf"

text \<open>
  Division of doubles. A finite non-zero value over zero is an infinity, zero over zero
  and infinity over infinity are NaN; nothing is raised.
\<close>

fun np_div :: "npfloat \<Rightarrow> npfloat \<Rightarrow> npfloat" where
  "np_div NaN _ = NaN"
| "np_div _ NaN = NaN"
| "np_div (Fin a) (Fin b) =
     (if b \<noteq> 0 then fl (a / b)
      else if a = 0 then NaN else if 0 < a then PInf else NInf)"
| "np_div (Fin a) PInf = Fin 0"
| "np_div (Fin a) NInf = Fin 0"
| "np_div PInf (Fin b) = (if 0 \<le> b then PInf else NInf)"
| "np_div NInf (Fin b) = (if 0 \<le> b then NInf else PInf)"
| "np_div PInf PInf = NaN"
| "np_div PInf NInf = NaN"
| "np_div NInf PInf = NaN"
| "np_div NInf NInf = NaN"

text \<open>\<^verbatim>\<open>np.sqrt\<close>: NaN on a negative value (with a warning).\<close>

fun np_sqrt :: "npfloat \<Rightarrow> npfloat" where
  "np_sqrt (Fin a) = (if a < 0 then NaN else Fin (sqrt a))"
| "np_sqrt PInf = PInf"
| "np_sqrt NInf = NaN"
| "np_sqrt NaN = NaN"

text \<open>
  The order in which NumPy sorts doubles: ascending, with NaN after every other value.
\<close>

instantiation npfloat :: linorder
begin

fun less_eq_npfloat :: "npfloat \<Rightarrow> npfloat \<Rightarrow> bool" where
  "less_eq_npfloat _ NaN = True"
| "less_eq_npfloat NaN _ = False"
| "less_eq_npfloat NInf _ = True"
| "less_eq_npfloat _ NInf = False"
| "less_eq_npfloat _ PInf = True"
| "less_eq_npfloat PInf _ = False"
| "less_eq_npfloat (Fin a) (Fin b) = (a \<le> b)"

definition less_npfloat :: "npfloat \<Rightarrow> npfloat \<Rightarrow> bool" where
  "less_npfloat a b = (a \<le> b \<and> \<not> b \<le> a)"

instance
proof
  fix x y z :: npfloat
  show "(x < y) = (x \<le> y \<and> \<not> y \<le> x)"
    by (simp add: less_npfloat_def)
  show "x \<le> x"
    by (cases x) simp_all
  show "x \<le> y \<Longrightarrow> y \<le> z \<Longrightarrow> x \<le> z"
    by (cases x; cases y; cases z) simp_all
  show "x \<le> y \<Longrightarrow> y \<le> x \<Longrightarrow> x = y"
    by (cases x; cases y) simp_all
  show "x \<le> y \<or> y \<le> x"
    by (cases x; cases y) auto
qed

end

text \<open>\<^verbatim>\<open>np.sum\<close> of a one-dimensional float array; the sum of no element is 0.\<close>

definition np_sum :: "npfloat list \<Rightarrow> npfloat" where
  "np_sum ws = foldr np_add ws (Fin 0)"

text \<open>\<^verbatim>\<open>np.sum(M, axis=0)\<close> of an array of shape \<open>(k, d)\<close>, given as its rows.\<close>

definition sum_axis0 :: "nat \<Rightarrow> npfloat list list \<Rightarrow> npfloat list" where
  "sum_axis0 d M = map (\<lambda>j. np_sum (map (\<lambda>r. r ! j) M)) [0..<d]"

text \<open>
  A two-dimensional array of 64-bit integers, the type of the module's own arrays:
  \<open>ncols\<close> is \<^verbatim>\<open>shape[1]\<close>, the length of \<open>rows\<close> is \<^verbatim>\<open>shape[0]\<close>. Every row of an
  array has \<open>ncols\<close> entries, and every entry is a 64-bit value.
\<close>

record ndarray2 =
  ncols :: nat
  rows :: "int list list"

definition int64 :: "int \<Rightarrow> bool" where
  "int64 v = (- (2 ^ 63) \<le> v \<and> v < 2 ^ 63)"

definition well_shaped :: "ndarray2 \<Rightarrow> bool" where
  "well_shaped A = list_all (\<lambda>r. length r = ncols A \<and> list_all int64 r) (rows A)"

text \<open>
  Exceptions, and what a call does: it returns a value or raises, and it prints lines.
  A printed line \<open>(prefix, e)\<close> is the text \<open>prefix\<close> followed by \<^verbatim>\<open>str(e)\<close>.
\<close>

datatype exn =
    AssertionError string
  | IndexError int nat
  | OverflowError
  | LibraryError string

datatype 'a outcome = Returned 'a | Raised exn

type_synonym stdout = "(string \<times> exn) list"

type_synonym 'a io = "'a outcome \<times> stdout"

text \<open>
  Indexing by an integer array, \<^verbatim>\<open>a[idx]\<close>: an index from \<open>-n\<close> to \<open>-1\<close> counts
  from the end, an index outside \<open>-n .. n-1\<close> raises IndexError.
\<close>

definition norm_index :: "nat \<Rightarrow> int \<Rightarrow> nat option" where
  "norm_index n i =
     (if 0 \<le> i \<and> i < int n then Some (nat i)
      else if - int n \<le> i \<and> i < 0 then Some (nat (i + int n))
      else None)"

fun fancy_index :: "'a list \<Rightarrow> int list \<Rightarrow> 'a list outcome" where
  "fancy_index a [] = Returned []"
| "fancy_index a (i # idx) =
     (case norm_index (length a) i of
        None \<Rightarrow> Raised (IndexError i (length a))
      | Some j \<Rightarrow>
          (case fancy_index a idx of
             Raised e \<Rightarrow> Raised e
           | Returned vs \<Rightarrow> Returned (a ! j # vs)))"

section \<open>kbest.py\<close>

subsection \<open>compute_similarity\<close>

text \<open>
  The body of the \<^verbatim>\<open>try\<close>: the assertion on the shapes, then the Euclidean norm of
  each row of \<^verbatim>\<open>reference_vectors - mp_vector\<close>. The difference, the square and the
  sum along a row are 64-bit integer operations and wrap around; \<^verbatim>\<open>np.sqrt\<close> converts
  the sum to a double and gives NaN when the wrapped sum is negative.
\<close>

definition compute_similarity_try :: "ndarray2 \<Rightarrow> int list \<Rightarrow> npfloat list io" where
  "compute_similarity_try reference_vectors mp_vector =
     (if ncols reference_vectors \<noteq> length mp_vector
      then (Raised (AssertionError
              ''Dimension mismatch between reference vectors and mp_vector''), [])
      else
        let differences =
              map (\<lambda>r. map2 (\<lambda>a b. wrap64 (a - b)) r mp_vector) (rows reference_vectors);
            squared_differences = map (map (\<lambda>d. wrap64 (d * d))) differences;
            metrics = map (\<lambda>r. np_sqrt (Fin (real_of_int (wrap64 (sum_list r)))))
                        squared_differences
        in (Returned metrics, []))"

text \<open>
  The function: \<^verbatim>\<open>except Exception\<close> prints the exception and returns the empty
  array.
\<close>

definition compute_similarity :: "ndarray2 \<Rightarrow> int list \<Rightarrow> npfloat list io" where
  "compute_similarity reference_vectors mp_vector =
     (case compute_similarity_try reference_vectors mp_vector of
        (Raised e, out) \<Rightarrow> (Returned [], out @ [(''Error in compute_similarity: '', e)])
      | (Returned metrics, out) \<Rightarrow> (Returned metrics, out))"

subsection \<open>find_best_cells\<close>

text \<open>
  \<^verbatim>\<open>np.argsort\<close> is NumPy's, not this repository's: it is a parameter of the model.
  What every sort kind of NumPy promises is a permutation of the indices that puts the
  values in ascending order, NaN last.
\<close>

definition np_argsort_spec :: "(npfloat list \<Rightarrow> int list) \<Rightarrow> bool" where
  "np_argsort_spec argsort =
     (\<forall>xs. mset (argsort xs) = mset (map int [0..<length xs])
         \<and> sorted (map (\<lambda>i. xs ! nat i) (argsort xs)))"

definition find_best_cells_try ::
  "(npfloat list \<Rightarrow> int list) \<Rightarrow> ndarray2 \<Rightarrow> int list \<Rightarrow> int
     \<Rightarrow> (int list \<times> npfloat list) io" where
  "find_best_cells_try argsort reference_vectors mp_vector k =
     (if \<not> 0 < k then (Raised (AssertionError ''k must be greater than zero''), [])
      else
        case compute_similarity reference_vectors mp_vector of
          (Raised e, out) \<Rightarrow> (Raised e, out)
        | (Returned metrics, out) \<Rightarrow>
            if \<not> 0 < length metrics
            then (Raised (AssertionError ''Metrics computation failed''), out)
            else
              let best_indices = take (nat k) (argsort metrics)
              in (case fancy_index metrics best_indices of
                    Raised e \<Rightarrow> (Raised e, out)
                  | Returned best \<Rightarrow> (Returned (best_indices, best), out)))"

definition find_best_cells ::
  "(npfloat list \<Rightarrow> int list) \<Rightarrow> ndarray2 \<Rightarrow> int list \<Rightarrow> int
     \<Rightarrow> (int list \<times> npfloat list) io" where
  "find_best_cells argsort reference_vectors mp_vector k =
     (case find_best_cells_try argsort reference_vectors mp_vector k of
        (Raised e, out) \<Rightarrow> (Returned ([], []), out @ [(''Error in find_best_cells: '', e)])
      | (Returned r, out) \<Rightarrow> (Returned r, out))"

text \<open>
  The sort as NumPy computes it on the arrays of this program: ascending, and equal
  values stay in index order (an insertion sort from the last index to the first).
\<close>

definition np_argsort :: "npfloat list \<Rightarrow> int list" where
  "np_argsort xs = sort_key (\<lambda>i. xs ! nat i) (map int [0..<length xs])"

subsection \<open>compute_barycentric_position\<close>

text \<open>
  Lines 70 and 71: \<^verbatim>\<open>weights = 1 / metrics\<close>, then \<^verbatim>\<open>weights /= np.sum(weights)\<close>.
\<close>

definition inverse_weights :: "npfloat list \<Rightarrow> npfloat list" where
  "inverse_weights metrics = map (\<lambda>d. np_div (Fin 1) d) metrics"

definition normalized_weights :: "npfloat list \<Rightarrow> npfloat list" where
  "normalized_weights metrics =
     (let weights = inverse_weights metrics
      in map (\<lambda>w. np_div w (np_sum weights)) weights)"

text \<open>
  The result is the position, or \<open>None\<close> for the array \<^verbatim>\<open>[None, None]\<close> that the
  \<^verbatim>\<open>except\<close> branch returns. The product of an integer cell coordinate and a weight
  is a product of doubles.
\<close>

definition compute_barycentric_position_try ::
  "ndarray2 \<Rightarrow> int list \<Rightarrow> npfloat list \<Rightarrow> npfloat list io" where
  "compute_barycentric_position_try cell_positions best_indices metrics =
     (if length best_indices \<noteq> length metrics
      then (Raised (AssertionError ''Mismatch in best indices and metrics length''), [])
      else
        let weights = normalized_weights metrics
        in case fancy_index (rows cell_positions) best_indices of
             Raised e \<Rightarrow> (Raised e, [])
           | Returned selected \<Rightarrow>
               (Returned (sum_axis0 (ncols cell_positions)
                  (map2 (\<lambda>p w. map (\<lambda>c. np_mul (Fin (real_of_int c)) w) p)
                     selected weights)), []))"

definition compute_barycentric_position ::
  "ndarray2 \<Rightarrow> int list \<Rightarrow> npfloat list \<Rightarrow> npfloat list option io" where
  "compute_barycentric_position cell_positions best_indices metrics =
     (case compute_barycentric_position_try cell_positions best_indices metrics of
        (Raised e, out) \<Rightarrow>
          (Returned None, out @ [(''Error in compute_barycentric_position: '', e)])
      | (Returned p, out) \<Rightarrow> (Returned (Some p), out))"

text \<open>
  What the result is compared with: the row that an index selects, the weighted sum of
  positions in each of \<open>d\<close> coordinates, and membership in the convex hull of a list
  of points.
\<close>

definition cell_at :: "ndarray2 \<Rightarrow> int \<Rightarrow> real list" where
  "cell_at A i =
     map real_of_int (rows A ! nat (if i < 0 then i + int (length (rows A)) else i))"

definition weighted_sum :: "nat \<Rightarrow> real list list \<Rightarrow> real list \<Rightarrow> real list" where
  "weighted_sum d ps ws = map (\<lambda>j. \<Sum>(p, w)\<leftarrow>zip ps ws. p ! j * w) [0..<d]"

definition in_convex_hull :: "real list list \<Rightarrow> real list \<Rightarrow> bool" where
  "in_convex_hull ps q =
     (\<exists>ws. length ws = length ps \<and> list_all (\<lambda>w. 0 \<le> w) ws \<and> sum_list ws = 1
         \<and> q = weighted_sum (length q) ps ws)"

subsection \<open>The module's data\<close>

definition reference_vectors :: ndarray2 where
  "reference_vectors =
     \<lparr>ncols = 3,
      rows = [[50, 60, 70], [55, 65, 75], [40, 50, 60], [45, 55, 65], [30, 40, 50]]\<rparr>"

definition mp_vector :: "int list" where
  "mp_vector = [48, 58, 68]"

definition cell_positions :: ndarray2 where
  "cell_positions = \<lparr>ncols = 2, rows = [[0, 0], [1, 0], [0, 1], [1, 1], [2, 2]]\<rparr>"

section \<open>nlateration.py\<close>

text \<open>
  The class \<^verbatim>\<open>AccessPoint\<close>: its fields, as the constructor stores them. The
  constructor asserts the types of its arguments and \<^verbatim>\<open>radius > 0\<close>; the two
  functions below read the fields and rely on neither.
\<close>

record access_point =
  ap_id :: int
  ap_x :: real
  ap_y :: real
  ap_z :: real
  ap_radius :: real
  ap_color :: string

subsection \<open>calculate_error\<close>

text \<open>
  The position is a list of Python floats. A Python float raised to the power 2 raises
  OverflowError when the result is too large for a double; the other operations give
  an infinity instead. \<^verbatim>\<open>np.sqrt\<close> returns a NumPy double, so the second square and the
  sum into \<open>error\<close> are NumPy operations and do not raise.
\<close>

fun py_square :: "npfloat \<Rightarrow> npfloat outcome" where
  "py_square (Fin a) =
     (if overflow_threshold \<le> a * a then Raised OverflowError else Returned (Fin (a * a)))"
| "py_square PInf = Returned PInf"
| "py_square NInf = Returned PInf"
| "py_square NaN = Returned NaN"

definition squared_distance :: "real \<Rightarrow> real \<Rightarrow> real \<Rightarrow> access_point \<Rightarrow> npfloat outcome" where
  "squared_distance x y z ap =
     (case py_square (np_sub (Fin x) (Fin (ap_x ap))) of
        Raised e \<Rightarrow> Raised e
      | Returned dx2 \<Rightarrow>
          (case py_square (np_sub (Fin y) (Fin (ap_y ap))) of
             Raised e \<Rightarrow> Raised e
           | Returned dy2 \<Rightarrow>
               (case py_square (np_sub (Fin z) (Fin (ap_z ap))) of
                  Raised e \<Rightarrow> Raised e
                | Returned dz2 \<Rightarrow> Returned (np_add (np_add dx2 dy2) dz2))))"

text \<open>The loop over the anchors, from the value of \<open>error\<close> so far.\<close>

fun error_loop :: "real \<Rightarrow> real \<Rightarrow> real \<Rightarrow> npfloat \<Rightarrow> access_point list \<Rightarrow> npfloat outcome" where
  "error_loop x y z error [] = Returned error"
| "error_loop x y z error (ap # aps) =
     (case squared_distance x y z ap of
        Raised e \<Rightarrow> Raised e
      | Returned s \<Rightarrow>
          (let distance = np_sqrt s;
               d = np_sub distance (Fin (ap_radius ap))
           in error_loop x y z (np_add error (np_mul d d)) aps))"

definition calculate_error_try :: "real list \<Rightarrow> access_point list \<Rightarrow> npfloat io" where
  "calculate_error_try position access_points =
     (if length position \<noteq> 3
      then (Raised (AssertionError
              ''Position should be a list of 3 coordinates [x, y, z]''), [])
      else
        let x = position ! 0; y = position ! 1; z = position ! 2
        in (error_loop x y z (Fin 0) access_points, []))"

text \<open>On an exception the function prints it and returns \<^verbatim>\<open>float('inf')\<close>.\<close>

definition calculate_error :: "real list \<Rightarrow> access_point list \<Rightarrow> npfloat io" where
  "calculate_error position access_points =
     (case calculate_error_try position access_points of
        (Raised e, out) \<Rightarrow> (Returned PInf, out @ [(''Error in error calculation: '', e)])
      | (Returned error, out) \<Rightarrow> (Returned error, out))"

text \<open>
  What the value is compared with: the exact squared range residual of one anchor.
\<close>

definition residual :: "real \<Rightarrow> real \<Rightarrow> real \<Rightarrow> access_point \<Rightarrow> real" where
  "residual x y z ap =
     (sqrt ((x - ap_x ap)\<^sup>2 + (y - ap_y ap)\<^sup>2 + (z - ap_z ap)\<^sup>2) - ap_radius ap)\<^sup>2"

subsection \<open>trilaterate\<close>

text \<open>
  \<^verbatim>\<open>scipy.optimize.minimize\<close> is SciPy's, not this repository's: it is a parameter of
  the model. It is given the objective and the initial guess, and returns an
  \<^verbatim>\<open>OptimizeResult\<close> (the final iterate \<^verbatim>\<open>x\<close>, the flag \<^verbatim>\<open>success\<close>, the number of
  iterations \<^verbatim>\<open>nit\<close>) or raises.
\<close>

record optimize_result =
  res_x :: "real list"
  success :: bool
  nit :: nat

type_synonym minimizer = "(real list \<Rightarrow> npfloat io) \<Rightarrow> real list \<Rightarrow> optimize_result io"

definition trilaterate_try :: "minimizer \<Rightarrow> access_point list \<Rightarrow> real list io" where
  "trilaterate_try minimize access_points =
     (if \<not> 3 \<le> length access_points
      then (Raised (AssertionError
              ''At least 3 access points are required for trilateration''), [])
      else
        let initial_guess = [0, 0, 0]
        in case minimize (\<lambda>position. calculate_error position access_points) initial_guess of
             (Raised e, out) \<Rightarrow> (Raised e, out)
           | (Returned result, out) \<Rightarrow> (Returned (res_x result), out))"

text \<open>
  The \<^verbatim>\<open>except AssertionError\<close> branch prints and has no \<^verbatim>\<open>return\<close>: the function
  returns \<^verbatim>\<open>None\<close>. The \<^verbatim>\<open>except Exception\<close> branch prints and returns
  \<^verbatim>\<open>[0, 0, 0]\<close>.
\<close>

definition trilaterate :: "minimizer \<Rightarrow> access_point list \<Rightarrow> real list option io" where
  "trilaterate minimize access_points =
     (case trilaterate_try minimize access_points of
        (Raised (AssertionError msg), out) \<Rightarrow>
          (Returned None, out @ [(''Input error in trilaterate: '', AssertionError msg)])
      | (Raised e, out) \<Rightarrow>
          (Returned (Some [0, 0, 0]), out @ [(''Error in trilateration: '', e)])
      | (Returned estimated_position, out) \<Rightarrow> (Returned (Some estimated_position), out))"

text \<open>The anchors of the module's main block.\<close>

definition main_access_points :: "access_point list" where
  "main_access_points =
     [\<lparr>ap_id = 0, ap_x = 1/2, ap_y = 1/2, ap_z = 1/2, ap_radius = 3, ap_color = ''blue''\<rparr>,
      \<lparr>ap_id = 1, ap_x = 4, ap_y = 0, ap_z = 0, ap_radius = 2, ap_color = ''red''\<rparr>,
      \<lparr>ap_id = 2, ap_x = 4, ap_y = 5, ap_z = 5, ap_radius = 21/5, ap_color = ''green''\<rparr>,
      \<lparr>ap_id = 3, ap_x = 3, ap_y = 3, ap_z = 3, ap_radius = 5/2, ap_color = ''yellow''\<rparr>]"

text \<open>
  A run of the minimizer that ends with a given \<^verbatim>\<open>OptimizeResult\<close>, whatever the
  objective and the initial guess.
\<close>

definition minimize_returning :: "optimize_result \<Rightarrow> minimizer" where
  "minimize_returning result objective initial_guess = (Returned result, [])"

subsection \<open>The round trip\<close>

text \<open>
  What the round trip is measured with: the exact objective, ranges that are the true
  distances to a point, four anchors that do not lie in one plane (the determinant of
  the three difference vectors is not zero), and a result within a tolerance of the
  point in each coordinate.
\<close>

definition objective :: "access_point list \<Rightarrow> real \<Rightarrow> real \<Rightarrow> real \<Rightarrow> real" where
  "objective aps x y z = (\<Sum>ap\<leftarrow>aps. residual x y z ap)"

definition exact_ranges :: "real \<Rightarrow> real \<Rightarrow> real \<Rightarrow> access_point list \<Rightarrow> bool" where
  "exact_ranges px py pz aps =
     list_all (\<lambda>ap. ap_radius ap
        = sqrt ((px - ap_x ap)\<^sup>2 + (py - ap_y ap)\<^sup>2 + (pz - ap_z ap)\<^sup>2)) aps"

definition non_coplanar ::
  "access_point \<Rightarrow> access_point \<Rightarrow> access_point \<Rightarrow> access_point \<Rightarrow> bool" where
  "non_coplanar a b c d =
     ((ap_x b - ap_x a) * ((ap_y c - ap_y a) * (ap_z d - ap_z a)
                          - (ap_z c - ap_z a) * (ap_y d - ap_y a))
      - (ap_y b - ap_y a) * ((ap_x c - ap_x a) * (ap_z d - ap_z a)
                            - (ap_z c - ap_z a) * (ap_x d - ap_x a))
      + (ap_z b - ap_z a) * ((ap_x c - ap_x a) * (ap_y d - ap_y a)
                            - (ap_y c - ap_y a) * (ap_x d - ap_x a)) \<noteq> 0)"

definition within_tolerance :: "real \<Rightarrow> real list \<Rightarrow> real list \<Rightarrow> bool" where
  "within_tolerance tol q p = list_all2 (\<lambda>a b. \<bar>a - b\<bar> \<le> tol) q p"

definition round_trip :: "minimizer \<Rightarrow> access_point list \<Rightarrow> real list \<Rightarrow> bool" where
  "round_trip minimize aps p =
     (case fst (trilaterate minimize aps) of
        Returned (Some q) \<Rightarrow> within_tolerance (1 / 1000) q p
      | _ \<Rightarrow> False)"

text \<open>
  Four anchors with exact ranges to the point \<open>(4, 0, 0)\<close>: two on the segment from the
  origin to the point, two at equal distance from both.
\<close>

definition symmetric_access_points :: "access_point list" where
  "symmetric_access_points =
     [\<lparr>ap_id = 0, ap_x = 1, ap_y = 0, ap_z = 0, ap_radius = 3, ap_color = ''blue''\<rparr>,
      \<lparr>ap_id = 1, ap_x = 3, ap_y = 0, ap_z = 0, ap_radius = 1, ap_color = ''red''\<rparr>,
      \<lparr>ap_id = 2, ap_x = 2, ap_y = 3/2, ap_z = 0, ap_radius = 5/2, ap_color = ''green''\<rparr>,
      \<lparr>ap_id = 3, ap_x = 2, ap_y = 0, ap_z = 3/2, ap_radius = 5/2, ap_color = ''yellow''\<rparr>]"

section \<open>Doubles and array indexing\<close>

lemma overflow_threshold_large: "2 ^ 1000 < overflow_threshold"
  by (simp add: overflow_threshold_def)

lemma overflow_threshold_gt_int64: "2 ^ 63 < overflow_threshold"
proof -
  have "(2::real) ^ 63 \<le> 2 ^ 1000" by (rule power_increasing) simp_all
  then show ?thesis using overflow_threshold_large by linarith
qed

lemma overflow_threshold_gt_one: "1 < overflow_threshold"
proof -
  have "(1::real) \<le> 2 ^ 63" by simp
  then show ?thesis using overflow_threshold_gt_int64 by linarith
qed

lemma fl_Fin: "\<bar>r\<bar> < overflow_threshold \<Longrightarrow> fl r = Fin r"
  by (auto simp: fl_def)

lemma np_sum_Nil: "np_sum [] = Fin 0"
  by (simp add: np_sum_def)

lemma np_sum_Cons: "np_sum (w # ws) = np_add w (np_sum ws)"
  by (simp add: np_sum_def)

lemma np_add_NaN_right: "np_add w NaN = NaN"
  by (cases w) simp_all

lemma np_sum_NaN: "NaN \<in> set ws \<Longrightarrow> np_sum ws = NaN"
  by (induction ws) (auto simp: np_sum_Cons np_add_NaN_right)

lemma np_sum_Fin_bounded:
  "(\<Sum>x\<leftarrow>xs. \<bar>f x\<bar>) < overflow_threshold
   \<Longrightarrow> np_sum (map (\<lambda>x. Fin (f x)) xs) = Fin (\<Sum>x\<leftarrow>xs. f x)"
proof (induction xs)
  case Nil
  then show ?case by (simp add: np_sum_Nil)
next
  case (Cons a xs)
  have nonneg: "0 \<le> (\<Sum>x\<leftarrow>xs. \<bar>f x\<bar>)"
    by (rule sum_list_nonneg) auto
  have rest: "(\<Sum>x\<leftarrow>xs. \<bar>f x\<bar>) < overflow_threshold"
    using Cons.prems nonneg by simp
  have "\<bar>\<Sum>x\<leftarrow>xs. f x\<bar> \<le> (\<Sum>x\<leftarrow>xs. \<bar>f x\<bar>)"
    using sum_list_abs [of "map f xs"] by (simp add: comp_def)
  then have "\<bar>f a + (\<Sum>x\<leftarrow>xs. f x)\<bar> < overflow_threshold"
    using Cons.prems by simp
  then show ?case
    using Cons.IH [OF rest] by (simp add: np_sum_Cons fl_Fin)
qed

lemma fancy_index_in_range:
  "\<forall>i\<in>set idx. 0 \<le> i \<and> i < int (length a)
   \<Longrightarrow> fancy_index a idx = Returned (map (\<lambda>i. a ! nat i) idx)"
  by (induction idx) (simp_all add: norm_index_def)

lemma fancy_index_valid:
  "\<forall>i\<in>set idx. - int (length a) \<le> i \<and> i < int (length a)
   \<Longrightarrow> fancy_index a idx
       = Returned (map (\<lambda>i. a ! nat (if i < 0 then i + int (length a) else i)) idx)"
  by (induction idx) (auto simp: norm_index_def)

section \<open>compute_similarity\<close>

text \<open>
  C6, as stated: a dimension mismatch is signalled to the caller and no empty result is
  returned. The code catches its own assertion: on reference vectors of width 3 and a
  measurement of width 2 the call returns the empty array, and the only trace is a
  printed line.
\<close>

theorem compute_similarity_mismatch_counterexample:
  "compute_similarity \<lparr>ncols = 3, rows = [[50, 60, 70], [55, 65, 75]]\<rparr> [48, 58]
     = (Returned [],
        [(''Error in compute_similarity: '',
          AssertionError ''Dimension mismatch between reference vectors and mp_vector'')])"
  by (simp add: compute_similarity_def compute_similarity_try_def)

text \<open>
  C6, amended: whenever the width of the reference vectors differs from the length of
  the measurement vector, compute_similarity does not raise: it prints the
  dimension-mismatch message and returns the empty array, with no distance computed.
\<close>

theorem compute_similarity_mismatch:
  assumes "ncols R \<noteq> length m"
  shows "compute_similarity R m
     = (Returned [],
        [(''Error in compute_similarity: '',
          AssertionError ''Dimension mismatch between reference vectors and mp_vector'')])"
  using assms by (simp add: compute_similarity_def compute_similarity_try_def)

theorem compute_similarity_mismatch_witness:
  "ncols \<lparr>ncols = 3, rows = [[1, 2, 3]]\<rparr> \<noteq> length [1, 2 :: int]
   \<and> compute_similarity \<lparr>ncols = 3, rows = [[1, 2, 3]]\<rparr> [1, 2]
     = (Returned [],
        [(''Error in compute_similarity: '',
          AssertionError ''Dimension mismatch between reference vectors and mp_vector'')])"
  using compute_similarity_mismatch [of "\<lparr>ncols = 3, rows = [[1, 2, 3]]\<rparr>" "[1, 2]"]
  by simp

lemma compute_similarity_matching:
  assumes "ncols R = length m"
  shows "\<exists>metrics. compute_similarity R m = (Returned metrics, [])
     \<and> length metrics = length (rows R)
     \<and> (\<forall>d\<in>set metrics. d = NaN \<or> (\<exists>r. 0 \<le> r \<and> d = Fin r))"
  using assms
  by (auto simp: compute_similarity_def compute_similarity_try_def Let_def)

section \<open>Sorts that meet the contract of np.argsort\<close>

lemma argsort_set:
  assumes "np_argsort_spec argsort"
  shows "set (argsort xs) = int ` {0..<length xs}"
proof -
  have "mset (argsort xs) = mset (map int [0..<length xs])"
    using assms by (simp add: np_argsort_spec_def)
  then have "set (argsort xs) = set (map int [0..<length xs])"
    by (rule mset_eq_setD)
  then show ?thesis by simp
qed

lemma argsort_length:
  assumes "np_argsort_spec argsort"
  shows "length (argsort xs) = length xs"
proof -
  have "mset (argsort xs) = mset (map int [0..<length xs])"
    using assms by (simp add: np_argsort_spec_def)
  then have "length (argsort xs) = length (map int [0..<length xs])"
    by (rule mset_eq_length)
  then show ?thesis by simp
qed


lemma argsort_sorted:
  assumes "np_argsort_spec argsort"
  shows "sorted (map (\<lambda>i. xs ! nat i) (argsort xs))"
  using assms by (simp add: np_argsort_spec_def)

lemma np_argsort_meets_spec: "np_argsort_spec np_argsort"
  by (simp add: np_argsort_spec_def np_argsort_def)





lemma sorted_same_mset_eq:
  fixes xs ys :: "npfloat list"
  assumes "sorted xs" and "sorted ys" and "mset xs = mset ys"
  shows "xs = ys"
proof -
  have "sort ys = xs" using assms(3,1) by (rule properties_for_sort)
  moreover have "sort ys = ys" using assms(2) by (simp add: sorted_sort_id)
  ultimately show ?thesis by simp
qed

lemma argsort_unique:
  assumes f: "np_argsort_spec f" and g: "np_argsort_spec g" and d: "distinct xs"
  shows "f xs = g xs"
proof -
  let ?key = "\<lambda>i. xs ! nat i"
  have sf: "set (f xs) = int ` {0..<length xs}" and sg: "set (g xs) = int ` {0..<length xs}"
    using argsort_set [OF f] argsort_set [OF g] by simp_all
  have inj: "inj_on ?key (int ` {0..<length xs})"
    using d by (auto simp: inj_on_def nth_eq_iff_index_eq)
  have "mset (f xs) = mset (g xs)"
    using f g by (simp add: np_argsort_spec_def)
  then have "mset (map ?key (f xs)) = mset (map ?key (g xs))"
    by simp
  then have "map ?key (f xs) = map ?key (g xs)"
    using argsort_sorted [OF f, of xs] argsort_sorted [OF g, of xs]
    by (intro sorted_same_mset_eq)
  moreover have "inj_on ?key (set (f xs) \<union> set (g xs))"
    using inj sf sg by simp
  ultimately show ?thesis
    by (simp add: inj_on_map_eq_map)
qed


section \<open>find_best_cells\<close>

lemma find_best_cells_selects:
  assumes spec: "np_argsort_spec argsort"
    and sim: "compute_similarity R m = (Returned metrics, [])"
    and k: "0 < k" and ne: "metrics \<noteq> []"
  shows "find_best_cells argsort R m k
      = (Returned (take (nat k) (argsort metrics),
                   map (\<lambda>i. metrics ! nat i) (take (nat k) (argsort metrics))), [])"
proof -
  have "\<forall>i\<in>set (take (nat k) (argsort metrics)). 0 \<le> i \<and> i < int (length metrics)"
    using argsort_set [OF spec, of metrics] by (auto dest!: in_set_takeD)
  then have "fancy_index metrics (take (nat k) (argsort metrics))
      = Returned (map (\<lambda>i. metrics ! nat i) (take (nat k) (argsort metrics)))"
    by (rule fancy_index_in_range)
  then show ?thesis
    using sim k ne by (simp add: find_best_cells_def find_best_cells_try_def Let_def)
qed

lemma find_best_cells_empty:
  assumes "ncols R = length m" and "rows R = []" and "0 < k"
  shows "find_best_cells argsort R m k
      = (Returned ([], []),
         [(''Error in find_best_cells: '', AssertionError ''Metrics computation failed'')])"
  using assms
  by (simp add: find_best_cells_def find_best_cells_try_def compute_similarity_def
      compute_similarity_try_def)




text \<open>
  C10, as stated: for every catalogue of n vectors and every k > n the call does not
  fail and returns the distances in ascending order. On an empty catalogue (n = 0,
  k = 1) the assertion \<^verbatim>\<open>metrics.size > 0\<close> fails: the call prints the error and
  returns through its \<^verbatim>\<open>except\<close> branch. On the catalogue
  \<open>[[3037000500], [1]]\<close> (n = 2, k = 3) the 64-bit square wraps and the returned
  distances are \<open>[1, NaN]\<close>.
\<close>

theorem find_best_cells_clamp_counterexample:
  "ncols \<lparr>ncols = 3, rows = []\<rparr> = length [48, 58, 68 :: int]
   \<and> int (length (rows \<lparr>ncols = 3, rows = []\<rparr>)) < 1
   \<and> find_best_cells np_argsort \<lparr>ncols = 3, rows = []\<rparr> [48, 58, 68] 1
       = (Returned ([], []),
          [(''Error in find_best_cells: '', AssertionError ''Metrics computation failed'')])
   \<and> ncols \<lparr>ncols = 1, rows = [[3037000500], [1]]\<rparr> = length [0 :: int]
   \<and> int (length (rows \<lparr>ncols = 1, rows = [[3037000500], [1]]\<rparr>)) < 3
   \<and> find_best_cells np_argsort \<lparr>ncols = 1, rows = [[3037000500], [1]]\<rparr> [0] 3
       = (Returned ([1, 0], [Fin 1, NaN]), [])"
  by (simp add: find_best_cells_def find_best_cells_try_def compute_similarity_def
      compute_similarity_try_def np_argsort_def norm_index_def wrap64_def eval_nat_numeral)

text \<open>
  C10, amended: for every catalogue of n reference vectors whose width equals the
  length of the measurement vector and every k > n: if the catalogue is empty,
  find_best_cells prints that the metrics computation failed and returns two empty
  arrays; if it is not empty and no distance computed by compute_similarity is NaN,
  find_best_cells does not fail: it returns all n indices, each once, with their
  distances, finite and in ascending order, and prints nothing.
\<close>

theorem find_best_cells_clamps:
  assumes "np_argsort_spec argsort"
    and "ncols R = length m"
    and "int (length (rows R)) < k"
    and "compute_similarity R m = (Returned metrics, out)"
    and "NaN \<notin> set metrics"
  shows "(rows R = [] \<longrightarrow>
            find_best_cells argsort R m k
              = (Returned ([], []),
                 [(''Error in find_best_cells: '',
                   AssertionError ''Metrics computation failed'')]))
    \<and> (rows R \<noteq> [] \<longrightarrow>
          (\<exists>idx.
              find_best_cells argsort R m k
                = (Returned (idx, map (\<lambda>i. metrics ! nat i) idx), [])
            \<and> length idx = length (rows R)
            \<and> mset idx = mset (map int [0..<length (rows R)])
            \<and> (\<forall>i\<in>set idx. \<exists>r. 0 \<le> r \<and> metrics ! nat i = Fin r)
            \<and> sorted (map (\<lambda>i. metrics ! nat i) idx)))"
proof (intro conjI impI)
  have k: "0 < k" using assms(3) by simp
  {
    assume "rows R = []"
    then show "find_best_cells argsort R m k
        = (Returned ([], []),
           [(''Error in find_best_cells: '', AssertionError ''Metrics computation failed'')])"
      using assms(2) k by (intro find_best_cells_empty)
  next
    assume nonempty: "rows R \<noteq> []"
    obtain metrics' where sim': "compute_similarity R m = (Returned metrics', [])"
      and len': "length metrics' = length (rows R)"
      and vals': "\<forall>d\<in>set metrics'. d = NaN \<or> (\<exists>r. 0 \<le> r \<and> d = Fin r)"
      using compute_similarity_matching [OF assms(2)] by blast
    have same: "metrics' = metrics"
      using sim' assms(4) by simp
    have sim: "compute_similarity R m = (Returned metrics, [])"
      and len: "length metrics = length (rows R)"
      and vals: "\<forall>d\<in>set metrics. \<exists>r. 0 \<le> r \<and> d = Fin r"
      using sim' len' vals' same assms(5) by auto
    have ne: "metrics \<noteq> []" using len nonempty by auto
    have n: "length (argsort metrics) = length (rows R)"
      using argsort_length [OF assms(1), of metrics] len by simp
    then have all: "take (nat k) (argsort metrics) = argsort metrics"
      using assms(3) by simp
    have perm: "mset (argsort metrics) = mset (map int [0..<length (rows R)])"
      using assms(1) len by (simp add: np_argsort_spec_def)
    have fin: "\<forall>i\<in>set (argsort metrics). \<exists>r. 0 \<le> r \<and> metrics ! nat i = Fin r"
    proof
      fix i assume "i \<in> set (argsort metrics)"
      then have "nat i < length metrics"
        using argsort_set [OF assms(1), of metrics] by auto
      then have "metrics ! nat i \<in> set metrics" by (rule nth_mem)
      then show "\<exists>r. 0 \<le> r \<and> metrics ! nat i = Fin r" using vals by blast
    qed
    have "find_best_cells argsort R m k
        = (Returned (argsort metrics, map (\<lambda>i. metrics ! nat i) (argsort metrics)), [])"
      using find_best_cells_selects [OF assms(1) sim k ne] all by simp
    then show "\<exists>idx.
              find_best_cells argsort R m k
                = (Returned (idx, map (\<lambda>i. metrics ! nat i) idx), [])
            \<and> length idx = length (rows R)
            \<and> mset idx = mset (map int [0..<length (rows R)])
            \<and> (\<forall>i\<in>set idx. \<exists>r. 0 \<le> r \<and> metrics ! nat i = Fin r)
            \<and> sorted (map (\<lambda>i. metrics ! nat i) idx)"
      using n perm fin argsort_sorted [OF assms(1), of metrics] by blast
  }
qed

theorem find_best_cells_clamps_witness:
  "np_argsort_spec np_argsort
   \<and> ncols \<lparr>ncols = 1, rows = [[1], [0], [1]]\<rparr> = length [0 :: int]
   \<and> int (length (rows \<lparr>ncols = 1, rows = [[1], [0], [1]]\<rparr>)) < 5
   \<and> compute_similarity \<lparr>ncols = 1, rows = [[1], [0], [1]]\<rparr> [0]
       = (Returned [Fin 1, Fin 0, Fin 1], [])
   \<and> NaN \<notin> set [Fin 1, Fin 0, Fin 1]
   \<and> rows \<lparr>ncols = 1, rows = [[1], [0], [1]]\<rparr> \<noteq> []
   \<and> find_best_cells np_argsort \<lparr>ncols = 1, rows = [[1], [0], [1]]\<rparr> [0] 5
       = (Returned ([1, 0, 2], [Fin 0, Fin 1, Fin 1]), [])"
  using find_best_cells_clamps
    [of np_argsort "\<lparr>ncols = 1, rows = [[1], [0], [1]]\<rparr>" "[0]" 5 "[Fin 1, Fin 0, Fin 1]" "[]"]
    np_argsort_meets_spec
  by (simp add: find_best_cells_def find_best_cells_try_def compute_similarity_def
      compute_similarity_try_def np_argsort_def norm_index_def wrap64_def eval_nat_numeral)

section \<open>compute_barycentric_position\<close>

lemma selected_rows:
  assumes "\<forall>i\<in>set idx. - int (length (rows A)) \<le> i \<and> i < int (length (rows A))"
  shows "fancy_index (rows A) idx
     = Returned (map (\<lambda>i. rows A ! nat (if i < 0 then i + int (length (rows A)) else i)) idx)"
  using assms by (rule fancy_index_valid)

lemma selected_row_shape:
  assumes "well_shaped A" and "- int (length (rows A)) \<le> i" and "i < int (length (rows A))"
  shows "length (rows A ! nat (if i < 0 then i + int (length (rows A)) else i)) = ncols A
    \<and> list_all int64 (rows A ! nat (if i < 0 then i + int (length (rows A)) else i))"
proof -
  have "nat (if i < 0 then i + int (length (rows A)) else i) < length (rows A)"
    using assms(2,3) by auto
  then have "rows A ! nat (if i < 0 then i + int (length (rows A)) else i) \<in> set (rows A)"
    by (rule nth_mem)
  then show ?thesis
    using assms(1) by (simp add: well_shaped_def list_all_iff)
qed

lemma np_add_PInf_left: "np_add PInf w = PInf \<or> np_add PInf w = NaN"
  by (cases w) simp_all

lemma np_add_keeps_PInf:
  "acc = PInf \<or> acc = NaN \<Longrightarrow> np_add w acc = PInf \<or> np_add w acc = NaN"
  by (cases w) auto

lemma np_sum_has_PInf: "PInf \<in> set ws \<Longrightarrow> np_sum ws = PInf \<or> np_sum ws = NaN"
proof (induction ws)
  case Nil
  then show ?case by simp
next
  case (Cons w ws)
  show ?case
  proof (cases "w = PInf")
    case True
    then show ?thesis using np_add_PInf_left [of "np_sum ws"] by (simp add: np_sum_Cons)
  next
    case False
    then have "np_sum ws = PInf \<or> np_sum ws = NaN" using Cons by simp
    then show ?thesis using np_add_keeps_PInf [of "np_sum ws" w] by (simp add: np_sum_Cons)
  qed
qed

lemma normalized_weight_of_zero:
  assumes "n < length ds" and "ds ! n = Fin 0"
  shows "normalized_weights ds ! n = NaN"
proof -
  have w: "inverse_weights ds ! n = PInf"
    using assms by (simp add: inverse_weights_def)
  have "n < length (inverse_weights ds)"
    using assms(1) by (simp add: inverse_weights_def)
  then have "PInf \<in> set (inverse_weights ds)"
    using w by (metis nth_mem)
  then have "np_sum (inverse_weights ds) = PInf \<or> np_sum (inverse_weights ds) = NaN"
    by (rule np_sum_has_PInf)
  then have "np_div PInf (np_sum (inverse_weights ds)) = NaN"
    by auto
  then show ?thesis
    using assms(1) w by (simp add: normalized_weights_def Let_def inverse_weights_def)
qed

lemma column_has_NaN:
  assumes "length ps = length ws" and "n < length ws" and "ws ! n = NaN"
    and "j < length (ps ! n)"
  shows "NaN \<in> set (map (\<lambda>r. r ! j)
     (map2 (\<lambda>p w. map (\<lambda>c. np_mul (Fin (real_of_int c)) w) p) ps ws))"
proof -
  let ?col = "map (\<lambda>r. r ! j)
     (map2 (\<lambda>p w. map (\<lambda>c. np_mul (Fin (real_of_int c)) w) p) ps ws)"
  have n: "n < length ?col" using assms(1,2) by simp
  have "?col ! n = NaN"
    using assms by simp
  then show ?thesis
    using n by (metis nth_mem)
qed

text \<open>
  C5, as stated: a selected distance that is exactly zero raises no division fault and
  puts no NaN or infinity into the weighted sum. The first half holds, the second does
  not: with the distances 0, 5, 12, 13 the weight of the exact match is infinite, the
  normalization divides infinity by infinity, and both coordinates of the returned
  position are NaN.
\<close>

theorem compute_barycentric_position_zero_counterexample:
  "compute_barycentric_position cell_positions [0, 3, 1, 2] [Fin 0, Fin 5, Fin 12, Fin 13]
     = (Returned (Some [NaN, NaN]), [])"
  by (simp add: compute_barycentric_position_def compute_barycentric_position_try_def
      normalized_weights_def inverse_weights_def np_sum_def sum_axis0_def
      cell_positions_def norm_index_def Let_def fl_def overflow_threshold_def
      eval_nat_numeral)

text \<open>
  C5, amended: for every input in which some selected distance is exactly zero (the
  sequences of equal length, the indices addressing rows of the array), the operation
  raises no division fault and returns normally, but nothing clamps the distance or
  returns the matching cell: every coordinate of the returned position is NaN.
\<close>

theorem compute_barycentric_position_zero_distance:
  assumes "well_shaped P"
    and "length idx = length ds"
    and "Fin 0 \<in> set ds"
    and "\<forall>i\<in>set idx. - int (length (rows P)) \<le> i \<and> i < int (length (rows P))"
  shows "compute_barycentric_position P idx ds
     = (Returned (Some (replicate (ncols P) NaN)), [])"
proof -
  let ?sel = "map (\<lambda>i. rows P ! nat (if i < 0 then i + int (length (rows P)) else i)) idx"
  obtain n where n: "n < length ds" and zero: "ds ! n = Fin 0"
    using assms(3) by (auto simp: in_set_conv_nth)
  have nidx: "n < length idx"
    using n assms(2) by simp
  have w: "normalized_weights ds ! n = NaN"
    using n zero by (rule normalized_weight_of_zero)
  have lw: "length (normalized_weights ds) = length ds"
    by (simp add: normalized_weights_def Let_def inverse_weights_def)
  have sel: "fancy_index (rows P) idx = Returned ?sel"
    using assms(4) by (rule selected_rows)
  have row: "length (?sel ! n) = ncols P"
    using selected_row_shape [OF assms(1)] assms(4) nidx by simp
  have "sum_axis0 (ncols P)
       (map2 (\<lambda>p w. map (\<lambda>c. np_mul (Fin (real_of_int c)) w) p) ?sel (normalized_weights ds))
     = map (\<lambda>j. NaN) [0..<ncols P]"
    unfolding sum_axis0_def
  proof (rule map_cong [OF refl])
    fix j assume "j \<in> set [0..<ncols P]"
    then have j: "j < length (?sel ! n)" using row by simp
    have "NaN \<in> set (map (\<lambda>r. r ! j)
       (map2 (\<lambda>p w. map (\<lambda>c. np_mul (Fin (real_of_int c)) w) p) ?sel
          (normalized_weights ds)))"
    proof (rule column_has_NaN [where n = n])
      show "length ?sel = length (normalized_weights ds)" using assms(2) lw by simp
      show "n < length (normalized_weights ds)" using n lw by simp
      show "normalized_weights ds ! n = NaN" by (rule w)
      show "j < length (?sel ! n)" by (rule j)
    qed
    then show "np_sum (map (\<lambda>r. r ! j)
       (map2 (\<lambda>p w. map (\<lambda>c. np_mul (Fin (real_of_int c)) w) p) ?sel
          (normalized_weights ds))) = NaN"
      by (rule np_sum_NaN)
  qed
  then have "sum_axis0 (ncols P)
       (map2 (\<lambda>p w. map (\<lambda>c. np_mul (Fin (real_of_int c)) w) p) ?sel (normalized_weights ds))
     = replicate (ncols P) NaN"
    by (simp add: map_replicate_const)
  then show ?thesis
    unfolding compute_barycentric_position_def compute_barycentric_position_try_def Let_def sel
    using assms(2) by simp
qed

theorem compute_barycentric_position_zero_distance_witness:
  "well_shaped cell_positions
   \<and> length [0, 3 :: int] = length [Fin 0, Fin 2]
   \<and> Fin 0 \<in> set [Fin 0, Fin 2]
   \<and> list_all (\<lambda>i. - int (length (rows cell_positions)) \<le> i
          \<and> i < int (length (rows cell_positions))) [0, 3]
   \<and> compute_barycentric_position cell_positions [0, 3] [Fin 0, Fin 2]
     = (Returned (Some [NaN, NaN]), [])"
  using compute_barycentric_position_zero_distance
    [of cell_positions "[0, 3]" "[Fin 0, Fin 2]"]
  by (simp add: well_shaped_def cell_positions_def int64_def numeral_2_eq_2)

lemma member_le_sum_list:
  fixes f :: "'a \<Rightarrow> real"
  assumes "\<forall>x\<in>set xs. 0 \<le> f x" and "a \<in> set xs"
  shows "f a \<le> (\<Sum>x\<leftarrow>xs. f x)"
  using assms
proof (induction xs)
  case Nil
  then show ?case by simp
next
  case (Cons x xs)
  have "0 \<le> (\<Sum>x\<leftarrow>xs. f x)"
    by (rule sum_list_nonneg) (use Cons.prems in auto)
  then show ?case using Cons by auto
qed


lemma sum_inverse_pos:
  assumes "rs \<noteq> []" and "\<forall>r\<in>set rs. (0::real) < r"
  shows "0 < (\<Sum>r\<leftarrow>rs. 1 / r)"
proof (cases rs)
  case Nil
  then show ?thesis using assms(1) by simp
next
  case (Cons a rest)
  have "0 \<le> (\<Sum>r\<leftarrow>rest. 1 / r)"
    by (rule sum_list_nonneg) (use assms(2) Cons in auto)
  moreover have "0 < 1 / a"
    using assms(2) Cons by simp
  ultimately have "0 < 1 / a + (\<Sum>r\<leftarrow>rest. 1 / r)"
    by linarith
  then show ?thesis
    using Cons by simp
qed

lemma inverse_weights_positive:
  assumes "\<forall>r\<in>set rs. 0 < r" and "(\<Sum>r\<leftarrow>rs. 1 / r) < overflow_threshold"
  shows "inverse_weights (map Fin rs) = map (\<lambda>r. Fin (1 / r)) rs"
proof -
  have "np_div (Fin 1) (Fin r) = Fin (1 / r)" if "r \<in> set rs" for r
  proof -
    have "0 < r" using assms(1) that by simp
    moreover have "1 / r \<le> (\<Sum>r\<leftarrow>rs. 1 / r)"
      using assms(1) that by (intro member_le_sum_list) auto
    ultimately have "\<bar>1 / r\<bar> < overflow_threshold"
      using assms(2) by simp
    then show ?thesis using \<open>0 < r\<close> by (simp add: fl_Fin)
  qed
  then show ?thesis
    by (simp add: inverse_weights_def)
qed

lemma normalized_weights_positive:
  assumes "rs \<noteq> []" and "\<forall>r\<in>set rs. 0 < r"
    and "(\<Sum>r\<leftarrow>rs. 1 / r) < overflow_threshold"
  shows "normalized_weights (map Fin rs)
     = map (\<lambda>r. Fin ((1 / r) / (\<Sum>e\<leftarrow>rs. 1 / e))) rs"
proof -
  let ?S = "\<Sum>e\<leftarrow>rs. 1 / e"
  have S: "0 < ?S" using assms(1,2) by (rule sum_inverse_pos)
  have inv: "inverse_weights (map Fin rs) = map (\<lambda>r. Fin (1 / r)) rs"
    using assms(2,3) by (rule inverse_weights_positive)
  have "(\<Sum>r\<leftarrow>rs. \<bar>1 / r\<bar>) = ?S"
    using assms(2) by (intro arg_cong [of _ _ sum_list] map_cong) auto
  then have total: "np_sum (map (\<lambda>r. Fin (1 / r)) rs) = Fin ?S"
    using assms(3) by (intro np_sum_Fin_bounded) simp
  have "np_div (Fin (1 / r)) (Fin ?S) = Fin ((1 / r) / ?S)" if "r \<in> set rs" for r
  proof -
    have "0 < r" using assms(2) that by simp
    moreover have "1 / r \<le> ?S"
      using assms(2) that by (intro member_le_sum_list) auto
    ultimately have "0 \<le> (1 / r) / ?S" and "(1 / r) / ?S \<le> 1"
      using S by (simp_all add: field_simps)
    then have "\<bar>(1 / r) / ?S\<bar> < overflow_threshold"
      using overflow_threshold_gt_one by linarith
    then show ?thesis using S by (simp add: fl_Fin)
  qed
  then show ?thesis
    unfolding normalized_weights_def Let_def inv total by simp
qed

lemma int64_bound:
  assumes "int64 c"
  shows "\<bar>real_of_int c\<bar> \<le> 2 ^ 63"
proof -
  have "- (2 ^ 63) \<le> c" and "c < 2 ^ 63"
    using assms by (simp_all add: int64_def)
  then have "\<bar>c\<bar> \<le> 2 ^ 63" by linarith
  then have "real_of_int \<bar>c\<bar> \<le> real_of_int (2 ^ 63)" by (simp only: of_int_le_iff)
  then show ?thesis by simp
qed

lemma product_fits:
  assumes "int64 c" and "0 \<le> w" and "w \<le> 1"
  shows "np_mul (Fin (real_of_int c)) (Fin w) = Fin (real_of_int c * w)"
proof -
  have "\<bar>real_of_int c * w\<bar> = \<bar>real_of_int c\<bar> * w"
    using assms(2) by (simp add: abs_mult)
  also have "\<dots> \<le> \<bar>real_of_int c\<bar> * 1"
    using assms(3) by (intro mult_left_mono) simp_all
  also have "\<dots> \<le> 2 ^ 63"
    using int64_bound [OF assms(1)] by simp
  finally have "\<bar>real_of_int c * w\<bar> < overflow_threshold"
    using overflow_threshold_gt_int64 by linarith
  then show ?thesis by (simp add: fl_Fin)
qed

lemma column_products:
  assumes "\<forall>p\<in>set ps. j < length p \<and> list_all int64 p"
    and "\<forall>w\<in>set ws. 0 \<le> w \<and> w \<le> 1"
  shows "map (\<lambda>r. r ! j)
       (map2 (\<lambda>p w. map (\<lambda>c. np_mul (Fin (real_of_int c)) w) p) ps (map (\<lambda>w. Fin w) ws))
     = map (\<lambda>(p, w). Fin (real_of_int (p ! j) * w)) (zip ps ws)"
  using assms
proof (induction ps arbitrary: ws)
  case Nil
  then show ?case by simp
next
  case (Cons p ps)
  show ?case
  proof (cases ws)
    case Nil
    then show ?thesis by simp
  next
    case (Cons w rest)
    have "int64 (p ! j)"
      using Cons.prems(1) by (auto simp: list_all_length)
    then have "np_mul (Fin (real_of_int (p ! j))) (Fin w) = Fin (real_of_int (p ! j) * w)"
      using Cons.prems(2) Cons by (intro product_fits) simp_all
    then show ?thesis
      using Cons Cons.IH [of rest] Cons.prems by simp
  qed
qed

lemma column_abs_bound:
  assumes "\<forall>p\<in>set ps. j < length p \<and> list_all int64 p"
    and "\<forall>w\<in>set ws. 0 \<le> w"
  shows "(\<Sum>(p, w)\<leftarrow>zip ps ws. \<bar>real_of_int (p ! j) * w\<bar>) \<le> 2 ^ 63 * sum_list ws"
  using assms
proof (induction ps arbitrary: ws)
  case Nil
  then show ?case by (simp add: sum_list_nonneg)
next
  case (Cons p ps)
  show ?case
  proof (cases ws)
    case Nil
    then show ?thesis by simp
  next
    case (Cons w rest)
    have "int64 (p ! j)"
      using Cons.prems(1) by (auto simp: list_all_length)
    then have c: "\<bar>real_of_int (p ! j)\<bar> \<le> 2 ^ 63" by (rule int64_bound)
    have w: "0 \<le> w" using Cons.prems(2) Cons by simp
    have "\<bar>real_of_int (p ! j) * w\<bar> = \<bar>real_of_int (p ! j)\<bar> * w"
      using w by (simp add: abs_mult)
    also have "\<dots> \<le> 2 ^ 63 * w"
      using c w by (rule mult_right_mono)
    finally have head: "\<bar>real_of_int (p ! j) * w\<bar> \<le> 2 ^ 63 * w" .
    have "(\<Sum>(p, w)\<leftarrow>zip ps rest. \<bar>real_of_int (p ! j) * w\<bar>) \<le> 2 ^ 63 * sum_list rest"
      using Cons.IH [of rest] Cons.prems Cons by simp
    then show ?thesis
      using head Cons by (simp add: algebra_simps)
  qed
qed

lemma barycentric_with_weights:
  assumes "well_shaped P"
    and "length idx = length ds"
    and "\<forall>i\<in>set idx. - int (length (rows P)) \<le> i \<and> i < int (length (rows P))"
    and "normalized_weights ds = map (\<lambda>w. Fin w) ws"
    and "\<forall>w\<in>set ws. 0 \<le> w" and "sum_list ws \<le> 1"
  shows "compute_barycentric_position P idx ds
     = (Returned (Some (map Fin (weighted_sum (ncols P) (map (cell_at P) idx) ws))), [])"
proof -
  let ?sel = "map (\<lambda>i. rows P ! nat (if i < 0 then i + int (length (rows P)) else i)) idx"
  have sel: "fancy_index (rows P) idx = Returned ?sel"
    using assms(3) by (rule selected_rows)
  have shape: "\<forall>p\<in>set ?sel. length p = ncols P \<and> list_all int64 p"
    using selected_row_shape [OF assms(1)] assms(3) by auto
  have le1: "\<forall>w\<in>set ws. 0 \<le> w \<and> w \<le> 1"
  proof
    fix w assume w: "w \<in> set ws"
    have "w \<le> sum_list ws"
      using member_le_sum_list [of ws "\<lambda>w. w" w] assms(5) w by simp
    then show "0 \<le> w \<and> w \<le> 1" using assms(5,6) w by auto
  qed
  have "sum_axis0 (ncols P)
       (map2 (\<lambda>p w. map (\<lambda>c. np_mul (Fin (real_of_int c)) w) p) ?sel (map (\<lambda>w. Fin w) ws))
     = map (\<lambda>j. Fin (\<Sum>(p, w)\<leftarrow>zip ?sel ws. real_of_int (p ! j) * w)) [0..<ncols P]"
    unfolding sum_axis0_def
  proof (rule map_cong [OF refl])
    fix j assume "j \<in> set [0..<ncols P]"
    then have rows_ok: "\<forall>p\<in>set ?sel. j < length p \<and> list_all int64 p"
      using shape by simp
    have col: "map (\<lambda>r. r ! j)
         (map2 (\<lambda>p w. map (\<lambda>c. np_mul (Fin (real_of_int c)) w) p) ?sel (map (\<lambda>w. Fin w) ws))
       = map (\<lambda>(p, w). Fin (real_of_int (p ! j) * w)) (zip ?sel ws)"
      using rows_ok le1 by (rule column_products)
    have "(\<Sum>(p, w)\<leftarrow>zip ?sel ws. \<bar>real_of_int (p ! j) * w\<bar>) \<le> 2 ^ 63 * sum_list ws"
      using rows_ok assms(5) by (rule column_abs_bound)
    also have "\<dots> \<le> 2 ^ 63 * 1"
      using assms(6) by (intro mult_left_mono) simp_all
    finally have "(\<Sum>x\<leftarrow>zip ?sel ws. \<bar>case x of (p, w) \<Rightarrow> real_of_int (p ! j) * w\<bar>)
        < overflow_threshold"
      using overflow_threshold_gt_int64 by (simp add: case_prod_unfold)
    then have "np_sum (map (\<lambda>x. Fin (case x of (p, w) \<Rightarrow> real_of_int (p ! j) * w)) (zip ?sel ws))
        = Fin (\<Sum>x\<leftarrow>zip ?sel ws. case x of (p, w) \<Rightarrow> real_of_int (p ! j) * w)"
      by (rule np_sum_Fin_bounded)
    then show "np_sum (map (\<lambda>r. r ! j)
         (map2 (\<lambda>p w. map (\<lambda>c. np_mul (Fin (real_of_int c)) w) p) ?sel (map (\<lambda>w. Fin w) ws)))
       = Fin (\<Sum>(p, w)\<leftarrow>zip ?sel ws. real_of_int (p ! j) * w)"
      unfolding col by (simp add: case_prod_unfold)
  qed
  also have "\<dots> = map Fin (weighted_sum (ncols P) (map (cell_at P) idx) ws)"
  proof -
    have "(\<Sum>(p, w)\<leftarrow>zip ?sel ws. real_of_int (p ! j) * w)
        = (\<Sum>(p, w)\<leftarrow>zip (map (cell_at P) idx) ws. p ! j * w)" if "j < ncols P" for j
    proof -
      have "\<forall>i\<in>set idx. cell_at P i ! j
          = real_of_int (rows P ! nat (if i < 0 then i + int (length (rows P)) else i) ! j)"
        using shape that by (simp add: cell_at_def)
      then have "map (\<lambda>(p, w). p ! j * w) (zip (map (cell_at P) idx) ws)
          = map (\<lambda>(p, w). real_of_int (p ! j) * w) (zip ?sel ws)"
        by (auto simp: zip_map1 case_prod_unfold dest: set_zip_leftD)
      then show ?thesis by simp
    qed
    then show ?thesis
      by (simp add: weighted_sum_def)
  qed
  finally show ?thesis
    unfolding compute_barycentric_position_def compute_barycentric_position_try_def Let_def
      assms(4) sel
    using assms(2) by simp
qed




section \<open>The data of kbest.py\<close>

lemma main_metrics:
  "compute_similarity reference_vectors mp_vector
     = (Returned [Fin (sqrt 12), Fin (sqrt 147), Fin (sqrt 192), Fin (sqrt 27), Fin (sqrt 972)],
        [])"
  by (simp add: compute_similarity_def compute_similarity_try_def reference_vectors_def
      mp_vector_def wrap64_def)

lemma main_np_argsort:
  "np_argsort [Fin (sqrt 12), Fin (sqrt 147), Fin (sqrt 192), Fin (sqrt 27), Fin (sqrt 972)]
     = [0, 3, 1, 2, 4]"
  by (simp add: np_argsort_def eval_nat_numeral)

lemma main_distinct:
  "distinct [Fin (sqrt 12), Fin (sqrt 147), Fin (sqrt 192), Fin (sqrt 27), Fin (sqrt 972)]"
  by simp

lemma main_sqrt:
  "sqrt 12 = 2 * sqrt 3" "sqrt 27 = 3 * sqrt 3" "sqrt 147 = 7 * sqrt 3" "sqrt 192 = 8 * sqrt 3"
  using real_sqrt_mult [of 4 3] real_sqrt_mult [of 9 3] real_sqrt_mult [of 49 3]
    real_sqrt_mult [of 64 3]
    real_sqrt_abs [of 2] real_sqrt_abs [of 3] real_sqrt_abs [of 7] real_sqrt_abs [of 8]
  by simp_all

lemma main_weights:
  "normalized_weights [Fin (sqrt 12), Fin (sqrt 27), Fin (sqrt 147), Fin (sqrt 192)]
     = map (\<lambda>w. Fin w) [84/185, 56/185, 24/185, 21/185]"
proof -
  let ?rs = "[2 * sqrt 3, 3 * sqrt 3, 7 * sqrt 3, 8 * sqrt 3]"
  have s: "0 < sqrt 3" and s1: "1 \<le> sqrt 3" by simp_all
  have pos: "\<forall>r\<in>set ?rs. 0 < r"
    by simp
  have "185 / (168 * sqrt 3) \<le> 4"
  proof -
    have "185 \<le> 4 * (168 * sqrt 3)" using s1 by linarith
    then show ?thesis using s by (simp add: pos_divide_le_eq)
  qed
  then have "(\<Sum>r\<leftarrow>?rs. 1 / r) \<le> 4"
    by simp
  moreover have "(4::real) < 2 ^ 1000" by simp
  ultimately have fits: "(\<Sum>r\<leftarrow>?rs. 1 / r) < overflow_threshold"
    using overflow_threshold_large by linarith
  have "normalized_weights (map Fin ?rs)
      = map (\<lambda>r. Fin ((1 / r) / (\<Sum>e\<leftarrow>?rs. 1 / e))) ?rs"
    using _ pos fits by (rule normalized_weights_positive) simp
  also have "\<dots> = map (\<lambda>w. Fin w) [84/185, 56/185, 24/185, 21/185]"
    using s by (simp add: field_simps)
  finally show ?thesis
    by (simp only: main_sqrt list.map)
qed

text \<open>
  C9: on the reference vectors, the measurement vector and the cell positions of the
  module, find_best_cells with k = 4 returns the indices 0, 3, 1, 2, in strictly
  ascending distance, entry 0 first at distance \<open>sqrt 12\<close>, which is about 3.46; and
  compute_barycentric_position on these four entries returns the point
  \<open>(16/37, 77/185)\<close>, which lies in the convex hull of the four selected cell
  positions. The five distances of the catalogue are distinct, so this holds for every
  sort that meets the contract of np.argsort.
\<close>

theorem kbest_main_example:
  assumes "np_argsort_spec argsort"
  shows "find_best_cells argsort reference_vectors mp_vector 4
      = (Returned ([0, 3, 1, 2],
           [Fin (sqrt 12), Fin (sqrt 27), Fin (sqrt 147), Fin (sqrt 192)]), [])
    \<and> 3.46 < sqrt 12 \<and> sqrt 12 < 3.47
    \<and> sqrt 12 < sqrt 27 \<and> sqrt 27 < sqrt 147 \<and> sqrt 147 < sqrt 192
    \<and> compute_barycentric_position cell_positions [0, 3, 1, 2]
         [Fin (sqrt 12), Fin (sqrt 27), Fin (sqrt 147), Fin (sqrt 192)]
      = (Returned (Some [Fin (16/37), Fin (77/185)]), [])
    \<and> map (cell_at cell_positions) [0, 3, 1, 2] = [[0, 0], [1, 1], [1, 0], [0, 1]]
    \<and> in_convex_hull [[0, 0], [1, 1], [1, 0], [0, 1]] [16/37, 77/185]"
proof -
  let ?ms = "[Fin (sqrt 12), Fin (sqrt 147), Fin (sqrt 192), Fin (sqrt 27), Fin (sqrt 972)]"
  have order: "argsort ?ms = [0, 3, 1, 2, 4]"
    using argsort_unique [OF assms np_argsort_meets_spec main_distinct] main_np_argsort
    by simp
  have "find_best_cells argsort reference_vectors mp_vector 4
      = (Returned (take (nat 4) (argsort ?ms),
            map (\<lambda>i. ?ms ! nat i) (take (nat 4) (argsort ?ms))), [])"
    using assms main_metrics by (rule find_best_cells_selects) simp_all
  then have best: "find_best_cells argsort reference_vectors mp_vector 4
      = (Returned ([0, 3, 1, 2],
           [Fin (sqrt 12), Fin (sqrt 27), Fin (sqrt 147), Fin (sqrt 192)]), [])"
    unfolding order by (simp add: eval_nat_numeral)
  have lo: "3.46 < sqrt 12"
    by (rule real_less_rsqrt) (simp add: power2_eq_square)
  have hi: "sqrt 12 < 3.47"
    by (rule real_less_lsqrt) (simp_all add: power2_eq_square)
  have ws: "well_shaped cell_positions"
    by (simp add: well_shaped_def cell_positions_def int64_def)
  have cells: "map (cell_at cell_positions) [0, 3, 1, 2] = [[0, 0], [1, 1], [1, 0], [0, 1]]"
    by (simp add: cell_at_def cell_positions_def eval_nat_numeral)
  have sum: "weighted_sum 2 [[0, 0], [1, 1], [1, 0], [0, 1]] [84/185, 56/185, 24/185, 21/185]
      = [16/37, 77/185]"
    by (simp add: weighted_sum_def eval_nat_numeral)
  have "compute_barycentric_position cell_positions [0, 3, 1, 2]
         [Fin (sqrt 12), Fin (sqrt 27), Fin (sqrt 147), Fin (sqrt 192)]
      = (Returned (Some (map Fin (weighted_sum (ncols cell_positions)
            (map (cell_at cell_positions) [0, 3, 1, 2])
            [84/185, 56/185, 24/185, 21/185]))), [])"
    using ws _ _ main_weights
    by (rule barycentric_with_weights) (simp_all add: cell_positions_def)
  then have pos: "compute_barycentric_position cell_positions [0, 3, 1, 2]
         [Fin (sqrt 12), Fin (sqrt 27), Fin (sqrt 147), Fin (sqrt 192)]
      = (Returned (Some [Fin (16/37), Fin (77/185)]), [])"
    unfolding cells using sum by (simp add: cell_positions_def)
  have hull: "in_convex_hull [[0, 0], [1, 1], [1, 0], [0, 1]] [16/37, 77/185]"
    unfolding in_convex_hull_def
    by (rule exI [of _ "[84/185, 56/185, 24/185, 21/185]"])
      (simp add: weighted_sum_def eval_nat_numeral)
  show ?thesis
    using best lo hi pos cells hull by simp
qed

theorem kbest_main_example_witness:
  "np_argsort_spec np_argsort
   \<and> find_best_cells np_argsort reference_vectors mp_vector 4
      = (Returned ([0, 3, 1, 2],
           [Fin (sqrt 12), Fin (sqrt 27), Fin (sqrt 147), Fin (sqrt 192)]), [])
   \<and> in_convex_hull [[0, 0], [1, 1], [1, 0], [0, 1]] [16/37, 77/185]"
  using kbest_main_example [OF np_argsort_meets_spec] np_argsort_meets_spec by simp

section \<open>calculate_error\<close>








section \<open>trilaterate\<close>

text \<open>
  C7, as stated: with fewer than 3 anchors the call raises an error to the caller. The
  code catches its own assertion: with the first two anchors of the main block the call
  prints a line and returns \<^verbatim>\<open>None\<close>.
\<close>

theorem trilaterate_too_few_anchors_counterexample:
  "trilaterate (minimize_returning \<lparr>res_x = [1, 2, 3], success = True, nit = 7\<rparr>)
      (take 2 main_access_points)
     = (Returned None,
        [(''Input error in trilaterate: '',
          AssertionError ''At least 3 access points are required for trilateration'')])"
  by (simp add: trilaterate_def trilaterate_try_def main_access_points_def)

text \<open>
  C7, amended: for every call with fewer than 3 anchors, trilaterate does not raise: it
  prints the input-error line and returns \<^verbatim>\<open>None\<close> at once, whatever the minimizer
  is, and puts no partial or default position in its place.
\<close>

theorem trilaterate_too_few_anchors:
  assumes "length aps < 3"
  shows "trilaterate minimize aps
     = (Returned None,
        [(''Input error in trilaterate: '',
          AssertionError ''At least 3 access points are required for trilateration'')])"
  using assms by (simp add: trilaterate_def trilaterate_try_def)

theorem trilaterate_too_few_anchors_witness:
  "length (take 2 main_access_points) < 3
   \<and> trilaterate (minimize_returning \<lparr>res_x = [4, 4, 4], success = False, nit = 0\<rparr>)
        (take 2 main_access_points)
     = (Returned None,
        [(''Input error in trilaterate: '',
          AssertionError ''At least 3 access points are required for trilateration'')])"
  using trilaterate_too_few_anchors [of "take 2 main_access_points"
      "minimize_returning \<lparr>res_x = [4, 4, 4], success = False, nit = 0\<rparr>"]
  by simp

text \<open>
  C8, as stated: a run that does not converge returns its best candidate together with
  a non-convergence signal. The code returns \<^verbatim>\<open>result.x\<close> alone: a run that SciPy
  reports as failed at its iteration cap and a run it reports as successful, ending at
  the same point, give the caller the same value and print nothing.
\<close>

theorem trilaterate_no_convergence_signal_counterexample:
  "trilaterate (minimize_returning \<lparr>res_x = [1, 2, 3], success = False, nit = 600\<rparr>)
      main_access_points
     = (Returned (Some [1, 2, 3]), [])
   \<and> trilaterate (minimize_returning \<lparr>res_x = [1, 2, 3], success = True, nit = 12\<rparr>)
      main_access_points
     = (Returned (Some [1, 2, 3]), [])"
  by (simp add: trilaterate_def trilaterate_try_def main_access_points_def
      minimize_returning_def)

text \<open>
  C8, amended: for every call with at least 3 anchors in which the minimizer returns a
  result, converged or not, trilaterate returns the final iterate \<^verbatim>\<open>result.x\<close> of that
  result, not a default in its place, and prints nothing of its own; the flag
  \<^verbatim>\<open>success\<close> is dropped, so the caller gets no convergence signal.
\<close>

theorem trilaterate_returns_final_iterate:
  assumes "3 \<le> length aps"
    and "minimize (\<lambda>position. calculate_error position aps) [0, 0, 0] = (Returned result, out)"
  shows "trilaterate minimize aps = (Returned (Some (res_x result)), out)"
  using assms by (simp add: trilaterate_def trilaterate_try_def)

theorem trilaterate_returns_final_iterate_witness:
  "3 \<le> length main_access_points
   \<and> minimize_returning \<lparr>res_x = [2, 1, 1], success = False, nit = 600\<rparr>
        (\<lambda>position. calculate_error position main_access_points) [0, 0, 0]
      = (Returned \<lparr>res_x = [2, 1, 1], success = False, nit = 600\<rparr>, [])
   \<and> trilaterate (minimize_returning \<lparr>res_x = [2, 1, 1], success = False, nit = 600\<rparr>)
        main_access_points
      = (Returned (Some (res_x \<lparr>res_x = [2, 1, 1], success = False, nit = 600\<rparr>)), [])"
proof -
  have n: "3 \<le> length main_access_points"
    by (simp add: main_access_points_def)
  have r: "minimize_returning \<lparr>res_x = [2, 1, 1], success = False, nit = 600\<rparr>
        (\<lambda>position. calculate_error position main_access_points) [0, 0, 0]
      = (Returned \<lparr>res_x = [2, 1, 1], success = False, nit = 600\<rparr>, [])"
    by (simp add: minimize_returning_def)
  show ?thesis
    using n r trilaterate_returns_final_iterate
      [of main_access_points
          "minimize_returning \<lparr>res_x = [2, 1, 1], success = False, nit = 600\<rparr>"
          "\<lparr>res_x = [2, 1, 1], success = False, nit = 600\<rparr>" "[]"]
    by simp
qed

lemma sqrt_values: "sqrt 1 = 1" "sqrt 9 = 3" "sqrt (25/4) = 5/2" "sqrt 4 = 2"
  using real_sqrt_abs [of 3] real_sqrt_abs [of "5/2"] real_sqrt_abs [of 2]
  by (simp_all add: power2_eq_square)

lemma stationary_x:
  "((\<lambda>t. objective symmetric_access_points t 0 0) has_real_derivative 0) (at 0)"
  unfolding objective_def symmetric_access_points_def residual_def
  by (auto intro!: derivative_eq_intros simp: sqrt_values power2_eq_square
      simp del: real_sqrt_abs real_sqrt_abs2 real_sqrt_mult_self)

lemma stationary_y:
  "((\<lambda>t. objective symmetric_access_points 0 t 0) has_real_derivative 0) (at 0)"
  unfolding objective_def symmetric_access_points_def residual_def
  by (auto intro!: derivative_eq_intros simp: sqrt_values power2_eq_square
      simp del: real_sqrt_abs real_sqrt_abs2 real_sqrt_mult_self)

lemma stationary_z:
  "((\<lambda>t. objective symmetric_access_points 0 0 t) has_real_derivative 0) (at 0)"
  unfolding objective_def symmetric_access_points_def residual_def
  by (auto intro!: derivative_eq_intros simp: sqrt_values power2_eq_square
      simp del: real_sqrt_abs real_sqrt_abs2 real_sqrt_mult_self)

text \<open>
  C3, as stated: from any reasonable initial guess the solver returns a position within
  \<open>1e-3\<close> of P. trilaterate takes no initial guess: it always starts the minimizer at
  \<open>[0, 0, 0]\<close>. For the four anchors of \<open>symmetric_access_points\<close>, which do not lie
  in one plane and whose ranges are the exact distances to \<open>P = (4, 0, 0)\<close>, the
  objective is 0 at P and 8 at the origin, and all three of its partial derivatives
  vanish at the origin. A minimizer that stops where the gradient vanishes, as the
  default method of \<^verbatim>\<open>scipy.optimize.minimize\<close> does, ends at its start, and
  trilaterate returns \<open>[0, 0, 0]\<close>, at distance 4 from P.
\<close>

theorem trilaterate_stationary_counterexample:
  "length symmetric_access_points = 4
   \<and> exact_ranges 4 0 0 symmetric_access_points
   \<and> non_coplanar (symmetric_access_points ! 0) (symmetric_access_points ! 1)
        (symmetric_access_points ! 2) (symmetric_access_points ! 3)
   \<and> objective symmetric_access_points 4 0 0 = 0
   \<and> objective symmetric_access_points 0 0 0 = 8
   \<and> ((\<lambda>t. objective symmetric_access_points t 0 0) has_real_derivative 0) (at 0)
   \<and> ((\<lambda>t. objective symmetric_access_points 0 t 0) has_real_derivative 0) (at 0)
   \<and> ((\<lambda>t. objective symmetric_access_points 0 0 t) has_real_derivative 0) (at 0)
   \<and> trilaterate (minimize_returning \<lparr>res_x = [0, 0, 0], success = True, nit = 0\<rparr>)
        symmetric_access_points
      = (Returned (Some [0, 0, 0]), [])
   \<and> \<not> round_trip (minimize_returning \<lparr>res_x = [0, 0, 0], success = True, nit = 0\<rparr>)
        symmetric_access_points [4, 0, 0]"
proof -
  have cfg: "length symmetric_access_points = 4
      \<and> exact_ranges 4 0 0 symmetric_access_points
      \<and> non_coplanar (symmetric_access_points ! 0) (symmetric_access_points ! 1)
          (symmetric_access_points ! 2) (symmetric_access_points ! 3)"
    by (simp add: symmetric_access_points_def exact_ranges_def non_coplanar_def sqrt_values
        power2_eq_square)
  have objs: "objective symmetric_access_points 4 0 0 = 0
      \<and> objective symmetric_access_points 0 0 0 = 8"
    by (simp add: objective_def symmetric_access_points_def residual_def sqrt_values
        power2_eq_square)
  have run: "trilaterate (minimize_returning \<lparr>res_x = [0, 0, 0], success = True, nit = 0\<rparr>)
        symmetric_access_points
      = (Returned (Some [0, 0, 0]), [])"
    by (simp add: trilaterate_def trilaterate_try_def symmetric_access_points_def
        minimize_returning_def)
  have far: "\<not> round_trip (minimize_returning \<lparr>res_x = [0, 0, 0], success = True, nit = 0\<rparr>)
        symmetric_access_points [4, 0, 0]"
    unfolding round_trip_def run by (simp add: within_tolerance_def)
  show ?thesis
    using cfg objs stationary_x stationary_y stationary_z run far by simp
qed

text \<open>
  C3, amended: trilaterate accepts no initial guess; it starts the minimizer at
  \<open>[0, 0, 0]\<close> and returns the minimizer's final iterate unchanged. So for every
  point P and every set of at least 3 anchors (in particular N \<ge> 4 anchors not in one
  plane with noiseless ranges) for which the minimizer returns a result, the position
  returned is within \<open>1e-3\<close> of P in each coordinate exactly when the minimizer's
  final iterate from \<open>[0, 0, 0]\<close> is.
\<close>

theorem trilaterate_round_trip:
  assumes "3 \<le> length aps"
    and "minimize (\<lambda>position. calculate_error position aps) [0, 0, 0] = (Returned result, out)"
  shows "trilaterate minimize aps = (Returned (Some (res_x result)), out)
    \<and> (round_trip minimize aps p \<longleftrightarrow> within_tolerance (1 / 1000) (res_x result) p)"
  using assms by (simp add: round_trip_def trilaterate_def trilaterate_try_def)

theorem trilaterate_round_trip_witness:
  "3 \<le> length symmetric_access_points
   \<and> minimize_returning \<lparr>res_x = [4, 0, 1 / 2000], success = True, nit = 9\<rparr>
        (\<lambda>position. calculate_error position symmetric_access_points) [0, 0, 0]
      = (Returned \<lparr>res_x = [4, 0, 1 / 2000], success = True, nit = 9\<rparr>, [])
   \<and> within_tolerance (1 / 1000) [4, 0, 1 / 2000] [4, 0, 0]
   \<and> round_trip (minimize_returning \<lparr>res_x = [4, 0, 1 / 2000], success = True, nit = 9\<rparr>)
        symmetric_access_points [4, 0, 0]"
proof -
  have n: "3 \<le> length symmetric_access_points"
    by (simp add: symmetric_access_points_def)
  have r: "minimize_returning \<lparr>res_x = [4, 0, 1 / 2000], success = True, nit = 9\<rparr>
        (\<lambda>position. calculate_error position symmetric_access_points) [0, 0, 0]
      = (Returned \<lparr>res_x = [4, 0, 1 / 2000], success = True, nit = 9\<rparr>, [])"
    by (simp add: minimize_returning_def)
  have w: "within_tolerance (1 / 1000) [4, 0, 1 / 2000] [4, 0, 0]"
    by (simp add: within_tolerance_def)
  show ?thesis
    using n r w trilaterate_round_trip
      [of symmetric_access_points
          "minimize_returning \<lparr>res_x = [4, 0, 1 / 2000], success = True, nit = 9\<rparr>"
          "\<lparr>res_x = [4, 0, 1 / 2000], success = True, nit = 9\<rparr>" "[]" "[4, 0, 0]"]
    by simp
qed

end
